theory Spec2Isabelle
  imports Complex_Main
begin

section \<open>Numbers of the numerical library\<close>

text \<open>
  The curve-fitting script \<^verbatim>\<open>main.py\<close> computes on arrays of double-precision
  numbers. A number is modelled as a real number or one of the three special values of
  the format: the two infinities and not-a-number. Arithmetic on finite values is the
  arithmetic of the reals (rounding and overflow are not modelled); arithmetic that
  involves a special value follows the rules of the format, which is what the
  finiteness test and the comparisons of \<^verbatim>\<open>objective\<close> depend on.
\<close>

datatype npfloat = Fin real | PInf | NInf | NaN


text \<open>Multiplying an infinity by a finite factor: the sign decides, zero gives not-a-number.\<close>

definition scale_inf :: "bool \<Rightarrow> real \<Rightarrow> npfloat" where
  "scale_inf positive r =
     (if r = 0 then NaN else if (0 < r) = positive then PInf else NInf)"

instantiation npfloat :: "{plus, minus, uminus, times, inverse, abs, ord}"
begin

fun uminus_npfloat :: "npfloat \<Rightarrow> npfloat" where
  "uminus_npfloat (Fin a) = Fin (- a)"
| "uminus_npfloat PInf = NInf"
| "uminus_npfloat NInf = PInf"
| "uminus_npfloat NaN = NaN"

fun plus_npfloat :: "npfloat \<Rightarrow> npfloat \<Rightarrow> npfloat" where
  "plus_npfloat (Fin a) (Fin b) = Fin (a + b)"
| "plus_npfloat NaN _ = NaN"
| "plus_npfloat _ NaN = NaN"
| "plus_npfloat PInf NInf = NaN"
| "plus_npfloat NInf PInf = NaN"
| "plus_npfloat PInf _ = PInf"
| "plus_npfloat _ PInf = PInf"
| "plus_npfloat NInf _ = NInf"
| "plus_npfloat _ NInf = NInf"

definition minus_npfloat :: "npfloat \<Rightarrow> npfloat \<Rightarrow> npfloat" where
  "minus_npfloat a b = a + (- b)"

fun times_npfloat :: "npfloat \<Rightarrow> npfloat \<Rightarrow> npfloat" where
  "times_npfloat (Fin a) (Fin b) = Fin (a * b)"
| "times_npfloat NaN _ = NaN"
| "times_npfloat _ NaN = NaN"
| "times_npfloat PInf (Fin b) = scale_inf True b"
| "times_npfloat NInf (Fin b) = scale_inf False b"
| "times_npfloat (Fin a) PInf = scale_inf True a"
| "times_npfloat (Fin a) NInf = scale_inf False a"
| "times_npfloat PInf PInf = PInf"
| "times_npfloat NInf NInf = PInf"
| "times_npfloat PInf NInf = NInf"
| "times_npfloat NInf PInf = NInf"

text \<open>Division of numpy scalars: a zero divisor gives an infinity or not-a-number, no exception.\<close>

fun divide_npfloat :: "npfloat \<Rightarrow> npfloat \<Rightarrow> npfloat" where
  "divide_npfloat (Fin a) (Fin b) = (if b = 0 then scale_inf True a else Fin (a / b))"
| "divide_npfloat NaN _ = NaN"
| "divide_npfloat _ NaN = NaN"
| "divide_npfloat (Fin a) _ = Fin 0"
| "divide_npfloat PInf (Fin b) = (if 0 \<le> b then PInf else NInf)"
| "divide_npfloat NInf (Fin b) = (if 0 \<le> b then NInf else PInf)"
| "divide_npfloat _ _ = NaN"

definition inverse_npfloat :: "npfloat \<Rightarrow> npfloat" where
  "inverse_npfloat a = divide (Fin 1) a"

fun abs_npfloat :: "npfloat \<Rightarrow> npfloat" where
  "abs_npfloat (Fin a) = Fin \<bar>a\<bar>"
| "abs_npfloat PInf = PInf"
| "abs_npfloat NInf = PInf"
| "abs_npfloat NaN = NaN"

text \<open>Comparisons: every comparison with not-a-number is false.\<close>

fun less_eq_npfloat :: "npfloat \<Rightarrow> npfloat \<Rightarrow> bool" where
  "less_eq_npfloat (Fin a) (Fin b) = (a \<le> b)"
| "less_eq_npfloat NaN _ = False"
| "less_eq_npfloat _ NaN = False"
| "less_eq_npfloat NInf _ = True"
| "less_eq_npfloat _ PInf = True"
| "less_eq_npfloat _ _ = False"

fun less_npfloat :: "npfloat \<Rightarrow> npfloat \<Rightarrow> bool" where
  "less_npfloat (Fin a) (Fin b) = (a < b)"
| "less_npfloat NaN _ = False"
| "less_npfloat _ NaN = False"
| "less_npfloat PInf _ = False"
| "less_npfloat _ NInf = False"
| "less_npfloat _ _ = True"

instance ..

end

text \<open>The elementwise functions of numpy that \<^verbatim>\<open>main.py\<close> calls.\<close>

fun deg2rad :: "npfloat \<Rightarrow> npfloat" where
  "deg2rad x = x * Fin (pi / 180)"

fun np_exp :: "npfloat \<Rightarrow> npfloat" where
  "np_exp (Fin a) = Fin (exp a)"
| "np_exp PInf = PInf"
| "np_exp NInf = Fin 0"
| "np_exp NaN = NaN"

fun np_sin :: "npfloat \<Rightarrow> npfloat" where
  "np_sin (Fin a) = Fin (sin a)"
| "np_sin _ = NaN"

fun np_cos :: "npfloat \<Rightarrow> npfloat" where
  "np_cos (Fin a) = Fin (cos a)"
| "np_cos _ = NaN"

text \<open>\<^verbatim>\<open>np.clip(a, lo, hi)\<close> is \<^verbatim>\<open>minimum(maximum(a, lo), hi)\<close>; not-a-number passes through.\<close>

fun np_clip :: "npfloat \<Rightarrow> real \<Rightarrow> real \<Rightarrow> npfloat" where
  "np_clip (Fin a) lo hi = Fin (min (max a lo) hi)"
| "np_clip PInf lo hi = Fin hi"
| "np_clip NInf lo hi = Fin (min lo hi)"
| "np_clip NaN lo hi = NaN"

text \<open>\<^verbatim>\<open>v ** 2\<close>\<close>

fun np_square :: "npfloat \<Rightarrow> npfloat" where
  "np_square v = v * v"

text \<open>\<^verbatim>\<open>np.hypot\<close>: an infinite argument gives infinity, even beside not-a-number.\<close>

fun np_hypot :: "npfloat \<Rightarrow> npfloat \<Rightarrow> npfloat" where
  "np_hypot (Fin a) (Fin b) = Fin (sqrt (a * a + b * b))"
| "np_hypot PInf _ = PInf"
| "np_hypot NInf _ = PInf"
| "np_hypot _ PInf = PInf"
| "np_hypot _ NInf = PInf"
| "np_hypot _ _ = NaN"

text \<open>\<^verbatim>\<open>np.sum\<close> of a one-dimensional array; the empty sum is zero.\<close>

definition np_sum :: "npfloat list \<Rightarrow> npfloat" where
  "np_sum vs = foldl (+) (Fin 0) vs"

section \<open>The parametric curve\<close>

text \<open>
  \<^verbatim>\<open>parametric_curve(t, theta_deg, M, X)\<close> works elementwise on the array \<^verbatim>\<open>t\<close>;
  \<open>curve_point\<close> is its body at one element, with the source's operator precedence.
\<close>

definition curve_point :: "npfloat \<Rightarrow> npfloat \<Rightarrow> npfloat \<Rightarrow> npfloat \<Rightarrow> npfloat \<times> npfloat" where
  "curve_point t theta_deg M X =
     (let th = deg2rad theta_deg;
          exp_term = np_exp (np_clip (M * \<bar>t\<bar>) (- 30) 30);
          sin_term = np_sin (Fin 0.3 * t);
          x = t * np_cos th - exp_term * sin_term * np_sin th + X;
          y = Fin 42 + t * np_sin th + exp_term * sin_term * np_cos th
      in (x, y))"

definition parametric_curve ::
  "npfloat list \<Rightarrow> npfloat \<Rightarrow> npfloat \<Rightarrow> npfloat \<Rightarrow> npfloat list \<times> npfloat list" where
  "parametric_curve t theta_deg M X =
     (map (\<lambda>ti. fst (curve_point ti theta_deg M X)) t,
      map (\<lambda>ti. snd (curve_point ti theta_deg M X)) t)"

section \<open>What the objective uses of numpy and scipy\<close>

datatype pyerr = ValueError | IndexError

text \<open>
  \<^verbatim>\<open>np.all(np.isfinite(a))\<close>: when every entry is finite the array is handed on as
  the list of its real values, otherwise there is no such list.
\<close>

fun finite_values :: "npfloat list \<Rightarrow> real list option" where
  "finite_values [] = Some []"
| "finite_values (Fin a # vs) = map_option ((#) a) (finite_values vs)"
| "finite_values (_ # vs) = None"

text \<open>
  \<^verbatim>\<open>np.argsort(a)\<close>: the indices that sort \<open>a\<close>. The order of equal keys is modelled
  as stable (the library's default sort does not promise one).
\<close>

definition argsort :: "real list \<Rightarrow> nat list" where
  "argsort a = map snd (sort_key fst (zip a [0..<length a]))"

text \<open>\<^verbatim>\<open>a[idx]\<close> for an index array produced by \<open>argsort\<close> (every index is in range).\<close>

definition take_indices :: "'a list \<Rightarrow> nat list \<Rightarrow> 'a list" where
  "take_indices a idx = map (\<lambda>i. a ! i) idx"

text \<open>\<^verbatim>\<open>a[0]\<close> and \<^verbatim>\<open>a[-1]\<close>: IndexError on an empty array.\<close>

definition index_first :: "'a list \<Rightarrow> pyerr + 'a" where
  "index_first a = (case a of [] \<Rightarrow> Inl IndexError | v # _ \<Rightarrow> Inr v)"

definition index_last :: "'a list \<Rightarrow> pyerr + 'a" where
  "index_last a = (if a = [] then Inl IndexError else Inr (last a))"

text \<open>
  \<^verbatim>\<open>np.interp(q, xp, fp)\<close> on a sorted, non-empty table: the index \<open>j\<close> of the last
  knot that is not above the query (the library's search, which on a sorted table finds
  what its linear scan \<^verbatim>\<open>for (i = 1; i < len && key >= arr[i]; ++i)\<close> finds), the
  knot's value when the query hits the knot or the last knot, the chord otherwise.
  Queries outside the table get the first or the last value; a not-a-number query gives
  not-a-number.
\<close>

definition search_index :: "real \<Rightarrow> real list \<Rightarrow> nat" where
  "search_index key arr = length (takeWhile (\<lambda>a. a \<le> key) (tl arr))"

fun np_interp :: "npfloat \<Rightarrow> real list \<Rightarrow> real list \<Rightarrow> npfloat" where
  "np_interp NaN xp fp = NaN"
| "np_interp PInf xp fp = Fin (last fp)"
| "np_interp NInf xp fp = Fin (hd fp)"
| "np_interp (Fin v) xp fp =
     (if last xp < v then Fin (last fp)
      else if v < hd xp then Fin (hd fp)
      else let j = search_index v xp in
        if j = length xp - 1 then Fin (fp ! j)
        else if xp ! j = v then Fin (fp ! j)
        else let slope = (fp ! (j + 1) - fp ! j) / (xp ! (j + 1) - xp ! j)
             in Fin (slope * (v - xp ! j) + fp ! j))"

text \<open>
  \<^verbatim>\<open>interp1d(x, y, bounds_error=False, fill_value=(below, above))\<close> of scipy, linear
  kind: the constructor sorts the table by \<open>x\<close> (a stable sort), refuses arrays of
  different lengths and a table with fewer than \<open>interp1d_minval\<close> entries (1 in current
  releases, 2 in old ones; the proofs below use only that it is at most 2), and keeps the
  two fill values. For a table of floating-point numbers, calling the interpolant
  evaluates \<^verbatim>\<open>np.interp\<close> and then overwrites the entries whose query is below the
  first or above the last knot with the fill values.
\<close>

record interpolant =
  ip_x :: "real list"
  ip_y :: "real list"
  fill_value_below :: real
  fill_value_above :: real

definition interp1d_minval :: nat where
  "interp1d_minval = 1"

definition interp1d :: "real list \<Rightarrow> real list \<Rightarrow> real \<times> real \<Rightarrow> pyerr + interpolant" where
  "interp1d x y fill_value =
     (if length x \<noteq> length y then Inl ValueError
      else let ind = argsort x in
        if length x < interp1d_minval then Inl ValueError
        else Inr \<lparr>ip_x = take_indices x ind, ip_y = take_indices y ind,
                  fill_value_below = fst fill_value, fill_value_above = snd fill_value\<rparr>)"

definition interp1d_eval :: "interpolant \<Rightarrow> npfloat \<Rightarrow> npfloat" where
  "interp1d_eval ip q =
     (let y_new = np_interp q (ip_x ip) (ip_y ip) in
      if q < Fin (hd (ip_x ip)) then Fin (fill_value_below ip)
      else if Fin (last (ip_x ip)) < q then Fin (fill_value_above ip)
      else y_new)"

definition interp1d_call :: "interpolant \<Rightarrow> npfloat list \<Rightarrow> npfloat list" where
  "interp1d_call ip x_new = map (interp1d_eval ip) x_new"

text \<open>
  \<^verbatim>\<open>a - b\<close> on one-dimensional arrays: elementwise on equal lengths, an array of
  length one is broadcast against the other, any other pair of lengths raises ValueError.
\<close>

definition np_subtract :: "npfloat list \<Rightarrow> npfloat list \<Rightarrow> pyerr + npfloat list" where
  "np_subtract a b =
     (if length a = length b then Inr (map2 (-) a b)
      else if length a = 1 then Inr (map (\<lambda>v. hd a - v) b)
      else if length b = 1 then Inr (map (\<lambda>u. u - hd b) a)
      else Inl ValueError)"

definition zeros_like :: "npfloat list \<Rightarrow> npfloat list" where
  "zeros_like a = replicate (length a) (Fin 0)"

section \<open>The objective\<close>

definition USE_EUCLIDEAN :: bool where
  "USE_EUCLIDEAN = False"

text \<open>The box of the bounds check, as the condition of \<^verbatim>\<open>objective\<close> writes it.\<close>

definition in_box :: "npfloat \<times> npfloat \<times> npfloat \<Rightarrow> bool" where
  "in_box params =
     (case params of (theta, M, X) \<Rightarrow>
        Fin 0 \<le> theta \<and> theta \<le> Fin 50 \<and> Fin (- 0.08) \<le> M \<and> M \<le> Fin 0.08 \<and>
        Fin 0 \<le> X \<and> X \<le> Fin 100)"

text \<open>The body of the \<^verbatim>\<open>try\<close> block: an exception is the left summand.\<close>

definition interp_block :: "real list \<Rightarrow> real list \<Rightarrow> npfloat list \<Rightarrow> pyerr + npfloat list" where
  "interp_block x_sorted y_sorted x_data =
     (case index_first y_sorted of Inl e \<Rightarrow> Inl e | Inr lo \<Rightarrow>
      case index_last y_sorted of Inl e \<Rightarrow> Inl e | Inr hi \<Rightarrow>
      case interp1d x_sorted y_sorted (lo, hi) of Inl e \<Rightarrow> Inl e | Inr interp \<Rightarrow>
        Inr (interp1d_call interp x_data))"

text \<open>The residual aggregation of line 41, for either value of the flag.\<close>

definition aggregate :: "bool \<Rightarrow> npfloat list \<Rightarrow> npfloat" where
  "aggregate use_euclidean dy =
     (if \<not> use_euclidean then np_sum (map abs dy)
      else np_sum (map2 np_hypot (zeros_like dy) dy))"

text \<open>The regularization of line 42.\<close>

definition reg_term :: "npfloat \<Rightarrow> npfloat" where
  "reg_term M = np_square ((M - Fin 0.015) / Fin 0.02)"

text \<open>
  \<^verbatim>\<open>objective(params, t_vals, x_data, y_data)\<close>, with the module flag as a parameter.
  The result is the returned number, or the exception that leaves the function.
\<close>

definition objective_with ::
  "bool \<Rightarrow> npfloat \<times> npfloat \<times> npfloat \<Rightarrow> npfloat list \<Rightarrow> npfloat list \<Rightarrow> npfloat list
     \<Rightarrow> pyerr + npfloat" where
  "objective_with use_euclidean params t_vals x_data y_data =
     (case params of (theta, M, X) \<Rightarrow>
      if \<not> (Fin 0 \<le> theta \<and> theta \<le> Fin 50 \<and> Fin (- 0.08) \<le> M \<and> M \<le> Fin 0.08 \<and>
              Fin 0 \<le> X \<and> X \<le> Fin 100)
      then Inr PInf
      else case parametric_curve t_vals theta M X of (x_pred, y_pred) \<Rightarrow>
        (case (finite_values x_pred, finite_values y_pred) of
           (Some xs, Some ys) \<Rightarrow>
             (let idx = argsort xs;
                  x_sorted = take_indices xs idx;
                  y_sorted = take_indices ys idx
              in case interp_block x_sorted y_sorted x_data of
                   Inl e \<Rightarrow> Inr PInf
                 | Inr y_interp \<Rightarrow>
                     (case np_subtract y_interp y_data of
                        Inl e \<Rightarrow> Inl e
                      | Inr dy \<Rightarrow>
                          (let err = aggregate use_euclidean dy;
                               reg = reg_term M
                           in Inr (err + Fin 200 * reg))))
         | _ \<Rightarrow> Inr PInf))"

definition objective ::
  "npfloat \<times> npfloat \<times> npfloat \<Rightarrow> npfloat list \<Rightarrow> npfloat list \<Rightarrow> npfloat list
     \<Rightarrow> pyerr + npfloat" where
  "objective = objective_with USE_EUCLIDEAN"

section \<open>The pipeline around the two optimizers\<close>

text \<open>
  \<^verbatim>\<open>differential_evolution\<close> and \<^verbatim>\<open>minimize\<close> are library calls whose algorithms
  are not part of the script. Each is a parameter of the model: \<open>de seed\<close> is the result
  object the global optimizer returns when it is called with that seed (all its other
  arguments are fixed in the script), \<open>minimize x0\<close> the result object of the local
  optimizer started at \<open>x0\<close>. A result object carries the fields \<^verbatim>\<open>x\<close> and
  \<^verbatim>\<open>fun\<close> that the script reads.
\<close>

record OptimizeResult =
  res_x :: "npfloat \<times> npfloat \<times> npfloat"
  res_fun :: npfloat

definition RANDOM_SEED :: int where
  "RANDOM_SEED = 42"

definition N_STARTS :: int where
  "N_STARTS = 3"

text \<open>The seed passed to the global optimizer in restart \<open>run\<close> (line 76).\<close>

definition restart_seed :: "int \<Rightarrow> int" where
  "restart_seed run = RANDOM_SEED + run * 3"

text \<open>
  The restart loop of lines 62 to 91 over the remaining values of \<^verbatim>\<open>run\<close>;
  \<open>None\<close> is the initial \<^verbatim>\<open>best = None\<close>.
\<close>

fun restart_loop ::
  "(int \<Rightarrow> OptimizeResult) \<Rightarrow> int list \<Rightarrow> OptimizeResult option \<Rightarrow> OptimizeResult option" where
  "restart_loop de [] best = best"
| "restart_loop de (run # runs) best =
     (let res = de (restart_seed run) in
      restart_loop de runs
        (case best of
           None \<Rightarrow> Some res
         | Some b \<Rightarrow> if res_fun res < res_fun b then Some res else Some b))"

definition global_search :: "(int \<Rightarrow> OptimizeResult) \<Rightarrow> OptimizeResult option" where
  "global_search de = restart_loop de [1..N_STARTS] None"

text \<open>Lines 94 to 97: the refined result replaces the incumbent on a strict improvement.\<close>

definition local_refinement ::
  "(npfloat \<times> npfloat \<times> npfloat \<Rightarrow> OptimizeResult) \<Rightarrow> OptimizeResult \<Rightarrow> OptimizeResult" where
  "local_refinement minimize best =
     (let loc = minimize (res_x best) in
      if res_fun loc < res_fun best then loc else best)"

text \<open>
  Both stages in sequence. With no incumbent (which needs \<^verbatim>\<open>N_STARTS\<close> below one)
  reading \<^verbatim>\<open>best.x\<close> fails, here \<open>None\<close>.
\<close>

definition pipeline ::
  "(int \<Rightarrow> OptimizeResult) \<Rightarrow> (npfloat \<times> npfloat \<times> npfloat \<Rightarrow> OptimizeResult)
     \<Rightarrow> OptimizeResult option" where
  "pipeline de minimize = map_option (local_refinement minimize) (global_search de)"

section \<open>Basic facts about the numbers\<close>

lemma fin_interval: "Fin a \<le> v \<Longrightarrow> v \<le> Fin b \<Longrightarrow> \<exists>r. v = Fin r \<and> a \<le> r \<and> r \<le> b"
  by (cases v) simp_all


text \<open>The comparisons order every pair of values of which neither is not-a-number.\<close>

lemma np_le_refl: "a \<noteq> NaN \<Longrightarrow> a \<le> (a::npfloat)"
  by (cases a) simp_all

lemma np_le_trans: "a \<le> b \<Longrightarrow> b \<le> c \<Longrightarrow> a \<le> (c::npfloat)"
  by (cases a; cases b; cases c) simp_all

lemma np_less_imp_le: "a < b \<Longrightarrow> a \<le> (b::npfloat)"
  by (cases a; cases b) simp_all

lemma np_not_less_le: "a \<noteq> NaN \<Longrightarrow> b \<noteq> NaN \<Longrightarrow> \<not> a < b \<Longrightarrow> b \<le> (a::npfloat)"
  by (cases a; cases b) simp_all



lemma finite_values_Some: "finite_values vs = Some rs \<Longrightarrow> vs = map Fin rs"
proof (induction vs arbitrary: rs)
  case Nil
  then show ?case by simp
next
  case (Cons v vs)
  then show ?case by (cases v) auto
qed


lemma foldl_plus_fin: "foldl (+) (Fin a) (map Fin rs) = Fin (a + sum_list rs)"
  by (induction rs arbitrary: a) (simp_all add: add.assoc)

lemma np_sum_abs_fin: "np_sum (map abs (map Fin ds)) = Fin (sum_list (map abs ds))"
proof -
  have "map abs (map Fin ds) = map Fin (map abs ds)" by (induction ds) simp_all
  then have "np_sum (map abs (map Fin ds)) = foldl (+) (Fin 0) (map Fin (map abs ds))"
    by (simp only: np_sum_def)
  then show ?thesis by (simp only: foldl_plus_fin) simp
qed

lemma sum_list_abs_diff:
  "length yi = length yo \<Longrightarrow>
     sum_list (map abs (map2 (-) yi yo)) = (\<Sum>i<length yo. \<bar>yi ! i - yo ! i\<bar>)"
  for yi yo :: "real list"
proof (induction yi yo rule: list_induct2)
  case Nil
  then show ?case by simp
next
  case (Cons a as b bs)
  have "(\<Sum>i<length (b # bs). \<bar>(a # as) ! i - (b # bs) ! i\<bar>) =
          \<bar>a - b\<bar> + (\<Sum>i<length bs. \<bar>as ! i - bs ! i\<bar>)"
    by (simp add: sum.lessThan_Suc_shift del: sum.lessThan_Suc)
  then show ?case using Cons.IH by simp
qed


lemma np_subtract_fin:
  "length a = length b \<Longrightarrow> np_subtract (map Fin a) (map Fin b) = Inr (map Fin (map2 (-) a b))"
  by (induction a b rule: list_induct2) (simp_all add: np_subtract_def minus_npfloat_def)

lemma hypot_zero: "np_hypot (Fin 0) v = \<bar>v\<bar>"
  by (cases v) simp_all

lemma hypot_zeros_like: "map2 np_hypot (zeros_like dy) dy = map abs dy"
  unfolding zeros_like_def by (induction dy) (simp_all add: hypot_zero)

lemma reg_term_fin: "Fin 200 * reg_term (Fin m) = Fin (200 * ((m - 0.015) / 0.02)\<^sup>2)"
  by (simp add: reg_term_def minus_npfloat_def power2_eq_square)

section \<open>The curve on finite arguments\<close>



section \<open>Sorting the predicted points\<close>

lemma length_argsort [simp]: "length (argsort a) = length a"
  by (simp add: argsort_def)

lemma length_take_indices [simp]: "length (take_indices a idx) = length idx"
  by (simp add: take_indices_def)

lemma take_indices_argsort: "take_indices a (argsort a) = map fst (sort_key fst (zip a [0..<length a]))"
proof -
  have "\<forall>p \<in> set (sort_key fst (zip a [0..<length a])). a ! snd p = fst p"
    by (auto simp: set_zip)
  then show ?thesis
    by (simp add: take_indices_def argsort_def)
qed

lemma sorted_take_indices: "sorted (take_indices a (argsort a))"
  by (simp add: take_indices_argsort)

lemma set_take_indices: "set (take_indices a (argsort a)) = set a"
proof -
  have m: "map fst (zip a [0..<length a]) = a" by (rule map_fst_zip) simp
  have "fst ` set (zip a [0..<length a]) = set (map fst (zip a [0..<length a]))"
    by (simp only: set_map)
  then have "fst ` set (zip a [0..<length a]) = set a"
    by (simp only: m)
  then show ?thesis
    by (simp add: take_indices_argsort)
qed

lemma argsort_sorted: "sorted a \<Longrightarrow> argsort a = [0..<length a]"
proof -
  assume "sorted a"
  then have "sorted (map fst (zip a [0..<length a]))" by simp
  then have "sort_key fst (zip a [0..<length a]) = zip a [0..<length a]"
    by (rule sort_key_id_if_sorted)
  then show ?thesis by (simp add: argsort_def)
qed

lemma take_indices_upt: "take_indices a [0..<length a] = a"
  by (simp add: take_indices_def map_nth)

lemma set_argsort: "set (argsort a) = {0..<length a}"
proof -
  have m: "map snd (zip a [0..<length a]) = [0..<length a]" by (rule map_snd_zip) simp
  have "snd ` set (zip a [0..<length a]) = set (map snd (zip a [0..<length a]))"
    by (simp only: set_map)
  then have "snd ` set (zip a [0..<length a]) = {0..<length a}"
    by (simp only: m set_upt)
  then show ?thesis by (simp add: argsort_def)
qed

lemma set_zip_take_indices:
  assumes "length xs = length ys"
  shows "set (zip (take_indices xs (argsort xs)) (take_indices ys (argsort xs))) = set (zip xs ys)"
proof -
  have "zip (take_indices xs (argsort xs)) (take_indices ys (argsort xs)) =
          map (\<lambda>i. (xs ! i, ys ! i)) (argsort xs)"
    by (simp add: take_indices_def zip_map_map zip_same_conv_map)
  then have "set (zip (take_indices xs (argsort xs)) (take_indices ys (argsort xs))) =
          (\<lambda>i. (xs ! i, ys ! i)) ` {0..<length xs}"
    by (simp add: set_argsort)
  also have "\<dots> = set (zip xs ys)"
    using assms by (auto simp: set_zip)
  finally show ?thesis .
qed

lemma sorted_hd_last: "sorted l \<Longrightarrow> x \<in> set l \<Longrightarrow> hd l \<le> x \<and> x \<le> last l"
  for l :: "real list"
proof (induction l)
  case Nil
  then show ?case by simp
next
  case (Cons a l)
  then show ?case by (cases "l = []") auto
qed

section \<open>The interpolant\<close>

lemma interp1d_minval_le: "interp1d_minval \<le> 2"
  by (simp add: interp1d_minval_def)

lemma interp_block_ok:
  assumes "length x_sorted = length y_sorted" "2 \<le> length x_sorted"
  shows "interp_block x_sorted y_sorted x_data =
           Inr (interp1d_call
                  \<lparr>ip_x = take_indices x_sorted (argsort x_sorted),
                   ip_y = take_indices y_sorted (argsort x_sorted),
                   fill_value_below = hd y_sorted, fill_value_above = last y_sorted\<rparr> x_data)"
proof -
  have ne: "y_sorted \<noteq> []" using assms by auto
  then have f: "index_first y_sorted = Inr (hd y_sorted)"
    by (cases y_sorted) (simp_all add: index_first_def)
  have l: "index_last y_sorted = Inr (last y_sorted)"
    using ne by (simp add: index_last_def)
  have m: "\<not> length x_sorted < interp1d_minval"
    using assms(2) interp1d_minval_le by linarith
  show ?thesis
    by (simp add: interp_block_def f l interp1d_def assms(1) [symmetric] m Let_def)
qed




lemma interp1d_eval_below:
  "q < Fin (hd (ip_x ip)) \<Longrightarrow> interp1d_eval ip q = Fin (fill_value_below ip)"
  by (simp add: interp1d_eval_def)

lemma interp1d_eval_above:
  assumes "sorted (ip_x ip)" "ip_x ip \<noteq> []" "Fin (last (ip_x ip)) < q"
  shows "interp1d_eval ip q = Fin (fill_value_above ip)"
proof -
  have "hd (ip_x ip) \<le> last (ip_x ip)"
    using sorted_hd_last [OF assms(1), of "hd (ip_x ip)"] assms(2) by simp
  then have "\<not> q < Fin (hd (ip_x ip))"
    using assms(3) by (cases q) simp_all
  then show ?thesis using assms(3) by (simp add: interp1d_eval_def)
qed

section \<open>The branches of the objective\<close>

lemma objective_in_box:
  assumes "in_box (theta, M, X)"
    and "finite_values (fst (parametric_curve t_vals theta M X)) = Some xs"
    and "finite_values (snd (parametric_curve t_vals theta M X)) = Some ys"
  shows "objective (theta, M, X) t_vals x_data y_data =
     (case interp_block (take_indices xs (argsort xs)) (take_indices ys (argsort xs)) x_data of
        Inl e \<Rightarrow> Inr PInf
      | Inr y_interp \<Rightarrow>
          (case np_subtract y_interp y_data of
             Inl e \<Rightarrow> Inl e
           | Inr dy \<Rightarrow> Inr (np_sum (map abs dy) + Fin 200 * reg_term M)))"
  using assms
  by (cases "parametric_curve t_vals theta M X")
     (simp add: objective_def objective_with_def in_box_def USE_EUCLIDEAN_def aggregate_def
        Let_def cong: sum.case_cong)


lemma objective_feasible_value:
  assumes "in_box (theta, Fin m, X)"
    and "finite_values (fst (parametric_curve t_vals theta (Fin m) X)) = Some xs"
    and "finite_values (snd (parametric_curve t_vals theta (Fin m) X)) = Some ys"
    and "interp_block (take_indices xs (argsort xs)) (take_indices ys (argsort xs)) x_data
           = Inr (map Fin yi)"
    and "length yi = length yo"
  shows "objective (theta, Fin m, X) t_vals x_data (map Fin yo) =
           Inr (Fin (sum_list (map abs (map2 (-) yi yo)) + 200 * ((m - 0.015) / 0.02)\<^sup>2))"
proof -
  have "objective (theta, Fin m, X) t_vals x_data (map Fin yo) =
          Inr (np_sum (map abs (map Fin (map2 (-) yi yo))) + Fin 200 * reg_term (Fin m))"
    by (simp add: objective_in_box [OF assms(1-3)] assms(4) np_subtract_fin [OF assms(5)])
  then show ?thesis
    by (simp only: np_sum_abs_fin reg_term_fin plus_npfloat.simps)
qed


section \<open>Evaluations at concrete arguments\<close>

lemma curve_example:
  "parametric_curve [Fin 0, Fin 1] (Fin 0) (Fin 0) (Fin 0) =
     ([Fin 0, Fin 1], [Fin 42, Fin (42 + sin (3 / 10))])"
  by (simp add: parametric_curve_def curve_point_def minus_npfloat_def)

lemma argsort_example: "argsort [0, 1] = [0, 1]"
  by (simp add: argsort_def)

lemma interp_example:
  "interp_block (take_indices [0, 1] (argsort [0, 1]))
     (take_indices [42, 42 + sin (3 / 10)] (argsort [0, 1])) [Fin 0, Fin 2] =
   Inr (map Fin [42, 42 + sin (3 / 10)])"
  by (simp add: argsort_example take_indices_def interp_block_def index_first_def index_last_def
        interp1d_def interp1d_minval_def interp1d_call_def interp1d_eval_def search_index_def)


lemma sorted_example: "take_indices [3, 1, 2] (argsort [3, 1, 2::real]) = [1, 2, 3]"
  by (simp add: argsort_def take_indices_def)

lemma flat_example:
  "interp_block [1, 2, 3] [20, 40, 10] [Fin 0, Fin 5, Fin (3/2), NInf, PInf, NaN, Fin 2, Fin 3, Fin 1] =
     Inr [Fin 20, Fin 10, Fin 30, Fin 20, Fin 10, NaN, Fin 40, Fin 10, Fin 20]"
  by (simp add: argsort_def take_indices_def interp_block_def index_first_def index_last_def
        interp1d_def interp1d_minval_def interp1d_call_def interp1d_eval_def search_index_def)

section \<open>The restart loop\<close>

lemma restart_loop_Some:
  assumes "res_fun b \<noteq> NaN" "\<forall>run \<in> set runs. res_fun (de (restart_seed run)) \<noteq> NaN"
  shows "\<exists>r. restart_loop de runs (Some b) = Some r \<and>
           (r = b \<or> (\<exists>k \<in> set runs. r = de (restart_seed k))) \<and>
           res_fun r \<noteq> NaN \<and> res_fun r \<le> res_fun b \<and>
           (\<forall>run \<in> set runs. res_fun r \<le> res_fun (de (restart_seed run)))"
  using assms
proof (induction runs arbitrary: b)
  case Nil
  then show ?case by (simp add: np_le_refl)
next
  case (Cons run runs)
  let ?res = "de (restart_seed run)"
  have nn: "res_fun ?res \<noteq> NaN" using Cons.prems(2) by simp
  have rest: "\<forall>run \<in> set runs. res_fun (de (restart_seed run)) \<noteq> NaN"
    using Cons.prems(2) by simp
  show ?case
  proof (cases "res_fun ?res < res_fun b")
    case True
    from Cons.IH [OF nn rest] obtain r where r:
      "restart_loop de runs (Some ?res) = Some r"
      "r = ?res \<or> (\<exists>k \<in> set runs. r = de (restart_seed k))"
      "res_fun r \<noteq> NaN" "res_fun r \<le> res_fun ?res"
      "\<forall>run \<in> set runs. res_fun r \<le> res_fun (de (restart_seed run))"
      by blast
    have "res_fun r \<le> res_fun b"
      using r(4) True np_less_imp_le np_le_trans by blast
    with r True show ?thesis by auto
  next
    case False
    from Cons.IH [OF Cons.prems(1) rest] obtain r where r:
      "restart_loop de runs (Some b) = Some r"
      "r = b \<or> (\<exists>k \<in> set runs. r = de (restart_seed k))"
      "res_fun r \<noteq> NaN" "res_fun r \<le> res_fun b"
      "\<forall>run \<in> set runs. res_fun r \<le> res_fun (de (restart_seed run))"
      by blast
    have "res_fun b \<le> res_fun ?res"
      using False nn Cons.prems(1) np_not_less_le by blast
    then have "res_fun r \<le> res_fun ?res"
      using r(4) np_le_trans by blast
    with r False show ?thesis by auto
  qed
qed

lemma restart_loop_None:
  assumes "runs \<noteq> []" "\<forall>run \<in> set runs. res_fun (de (restart_seed run)) \<noteq> NaN"
  shows "\<exists>k \<in> set runs. restart_loop de runs None = Some (de (restart_seed k)) \<and>
           (\<forall>run \<in> set runs. res_fun (de (restart_seed k)) \<le> res_fun (de (restart_seed run)))"
proof -
  obtain run0 rest where runs: "runs = run0 # rest"
    using assms(1) by (cases runs) auto
  let ?b = "de (restart_seed run0)"
  have nn: "res_fun ?b \<noteq> NaN" using assms(2) runs by simp
  have rest: "\<forall>run \<in> set rest. res_fun (de (restart_seed run)) \<noteq> NaN"
    using assms(2) runs by simp
  from restart_loop_Some [OF nn rest] obtain r where r:
      "restart_loop de rest (Some ?b) = Some r"
      "r = ?b \<or> (\<exists>k \<in> set rest. r = de (restart_seed k))"
      "res_fun r \<le> res_fun ?b"
      "\<forall>run \<in> set rest. res_fun r \<le> res_fun (de (restart_seed run))"
    by blast
  from r(2) obtain k where k: "k \<in> set runs" "r = de (restart_seed k)"
    using runs by auto
  have "restart_loop de runs None = Some (de (restart_seed k))"
    using r(1) k(2) runs by simp
  moreover have "\<forall>run \<in> set runs. res_fun (de (restart_seed k)) \<le> res_fun (de (restart_seed run))"
    using r(3,4) k(2) runs by simp
  ultimately show ?thesis using k(1) by blast
qed

lemma runs_list: "[1..N_STARTS] = [1, 2, 3]"
  by (simp add: N_STARTS_def upto.simps)

section \<open>The curve at the origin of its parameter\<close>

text \<open>
  Claim C8. For every \<open>theta\<close> in \<open>[0, 50]\<close>, every \<open>M\<close> in \<open>[-0.08, 0.08]\<close> and every
  \<open>X\<close> (finite or not), evaluating the curve on the one-element array \<open>[0]\<close> gives
  \<open>y = 42\<close> exactly: \<open>sin (0.3 * 0) = 0\<close> removes the exponential term and
  \<open>0 * sin theta_rad = 0\<close> the linear one.
\<close>

theorem curve_at_zero:
  assumes "Fin 0 \<le> theta" "theta \<le> Fin 50" "Fin (- 0.08) \<le> M" "M \<le> Fin 0.08"
  shows "snd (parametric_curve [Fin 0] theta M X) = [Fin 42]"
proof -
  obtain th where th: "theta = Fin th" using assms(1,2) fin_interval by blast
  obtain m where m: "M = Fin m" using assms(3,4) fin_interval by blast
  show ?thesis
    by (simp add: parametric_curve_def curve_point_def th m minus_npfloat_def)
qed

theorem curve_at_zero_witness:
  "Fin 0 \<le> Fin 25 \<and> Fin 25 \<le> Fin 50 \<and> Fin (- 0.08) \<le> Fin 0.015 \<and> Fin 0.015 \<le> Fin 0.08 \<and>
   snd (parametric_curve [Fin 0] (Fin 25) (Fin 0.015) NaN) = [Fin 42]"
  using curve_at_zero [of "Fin 25" "Fin 0.015" NaN] by simp

section \<open>The bounds check\<close>

text \<open>
  Claim C1. When at least one of \<open>theta\<close>, \<open>M\<close>, \<open>X\<close> is outside its box (which
  includes a coordinate that is not a number), \<open>objective\<close> returns exactly plus
  infinity, whatever \<open>t_vals\<close>, \<open>x_data\<close> and \<open>y_data\<close> are. The check is the first
  branch of the function, so the value is returned also for arrays on which the curve,
  the interpolation or the subtraction would not go through: nothing of them is computed.
\<close>

theorem objective_out_of_box:
  "\<not> in_box params \<Longrightarrow> objective params t_vals x_data y_data = Inr PInf"
  by (cases params) (simp add: objective_def objective_with_def in_box_def)

theorem objective_out_of_box_witness:
  "\<not> in_box (Fin 51, Fin 0, Fin 0) \<and>
   objective (Fin 51, Fin 0, Fin 0) [NaN] [Fin 1, Fin 2, Fin 3] [Fin 1, Fin 2] = Inr PInf"
  using objective_out_of_box [of "(Fin 51, Fin 0, Fin 0)" "[NaN]" "[Fin 1, Fin 2, Fin 3]" "[Fin 1, Fin 2]"]
  by (simp add: in_box_def)

section \<open>The range of the objective\<close>



section \<open>The misfit is a sum of absolute differences\<close>

text \<open>
  Claim C5. On a feasible evaluation (parameters in the box, finite samples of the curve,
  an interpolation that was built and gave the finite values \<open>yi\<close> at the observed
  \<open>x\<close>) with finite observed values \<open>yo\<close>, the objective is the sum over all observation
  points of \<open>\<bar>yi ! i - yo ! i\<bar>\<close>, a sum and not a mean, plus the regularization term
  \<open>200 * ((M - 0.015) / 0.02)\<^sup>2\<close>.
\<close>

theorem objective_l1_sum:
  assumes "in_box (theta, Fin m, X)"
    and "finite_values (fst (parametric_curve t_vals theta (Fin m) X)) = Some xs"
    and "finite_values (snd (parametric_curve t_vals theta (Fin m) X)) = Some ys"
    and "interp_block (take_indices xs (argsort xs)) (take_indices ys (argsort xs)) x_data
           = Inr (map Fin yi)"
    and "y_data = map Fin yo"
    and "length yi = length yo"
  shows "objective (theta, Fin m, X) t_vals x_data y_data =
           Inr (Fin ((\<Sum>i<length yo. \<bar>yi ! i - yo ! i\<bar>) + 200 * ((m - 0.015) / 0.02)\<^sup>2))"
  using objective_feasible_value [OF assms(1-4) assms(6)] sum_list_abs_diff [OF assms(6)]
  by (simp add: assms(5))

theorem objective_l1_sum_witness:
  "in_box (Fin 0, Fin 0, Fin 0) \<and>
   finite_values (fst (parametric_curve [Fin 0, Fin 1] (Fin 0) (Fin 0) (Fin 0))) = Some [0, 1] \<and>
   finite_values (snd (parametric_curve [Fin 0, Fin 1] (Fin 0) (Fin 0) (Fin 0)))
     = Some [42, 42 + sin (3 / 10)] \<and>
   interp_block (take_indices [0, 1] (argsort [0, 1]))
     (take_indices [42, 42 + sin (3 / 10)] (argsort [0, 1])) [Fin 0, Fin 2]
     = Inr (map Fin [42, 42 + sin (3 / 10)]) \<and>
   [Fin 40, Fin (42 + sin (3 / 10))] = map Fin [40, 42 + sin (3 / 10)] \<and>
   length [42, 42 + sin (3 / 10)] = length [40, 42 + sin (3 / 10)] \<and>
   objective (Fin 0, Fin 0, Fin 0) [Fin 0, Fin 1] [Fin 0, Fin 2]
     [Fin 40, Fin (42 + sin (3 / 10))] = Inr (Fin (229 / 2))"
proof -
  have h1: "in_box (Fin 0, Fin 0, Fin 0)" by (simp add: in_box_def)
  have h2: "finite_values (fst (parametric_curve [Fin 0, Fin 1] (Fin 0) (Fin 0) (Fin 0)))
              = Some [0, 1]"
    and h3: "finite_values (snd (parametric_curve [Fin 0, Fin 1] (Fin 0) (Fin 0) (Fin 0)))
              = Some [42, 42 + sin (3 / 10)]"
    by (simp_all add: curve_example)
  have h5: "[Fin 40, Fin (42 + sin (3 / 10))] = map Fin [40, 42 + sin (3 / 10)]" by simp
  have h6: "length [42, 42 + sin (3 / 10)] = length [40, 42 + sin (3 / 10)]" by simp
  have "objective (Fin 0, Fin 0, Fin 0) [Fin 0, Fin 1] [Fin 0, Fin 2]
          [Fin 40, Fin (42 + sin (3 / 10))] =
        Inr (Fin ((\<Sum>i<length [40, 42 + sin (3 / 10) :: real].
                     \<bar>[42, 42 + sin (3 / 10)] ! i - [40, 42 + sin (3 / 10)] ! i\<bar>) +
                  200 * ((0 - 0.015) / 0.02)\<^sup>2))"
    using objective_l1_sum [OF h1 h2 h3 interp_example h5 h6] .
  also have "(\<Sum>i<length [40, 42 + sin (3 / 10) :: real].
                \<bar>[42, 42 + sin (3 / 10)] ! i - [40, 42 + sin (3 / 10)] ! i\<bar>) = (2 :: real)"
    by (simp add: lessThan_Suc numeral_2_eq_2)
  finally have "objective (Fin 0, Fin 0, Fin 0) [Fin 0, Fin 1] [Fin 0, Fin 2]
          [Fin 40, Fin (42 + sin (3 / 10))] = Inr (Fin (229 / 2))"
    by (simp add: power2_eq_square)
  then show ?thesis
    using h1 h2 h3 interp_example h5 h6 by blast
qed

section \<open>Sorted table and flat extrapolation\<close>

text \<open>
  Claim C6. Inside the objective the predicted points are sorted by their \<open>x\<close>: the
  sorted table holds the same points, in ascending order of \<open>x\<close>, so its first and last
  entries are the points of smallest and of largest \<open>x\<close>. For a table of at least two
  points the interpolation is built without an exception and returns one value per
  query; a query below the smallest \<open>x\<close> gets the \<open>y\<close> of the first point and a query
  above the largest \<open>x\<close> the \<open>y\<close> of the last point (infinite queries included): it
  neither fails nor continues the outer chord.
\<close>

theorem flat_extrapolation:
  fixes xs ys :: "real list"
  defines "x_sorted \<equiv> take_indices xs (argsort xs)"
    and "y_sorted \<equiv> take_indices ys (argsort xs)"
  assumes "length xs = length ys" "2 \<le> length xs"
  shows "sorted x_sorted \<and> set (zip x_sorted y_sorted) = set (zip xs ys) \<and>
         (\<forall>x \<in> set xs. hd x_sorted \<le> x \<and> x \<le> last x_sorted) \<and>
         (\<exists>y_interp. interp_block x_sorted y_sorted x_data = Inr y_interp \<and>
            length y_interp = length x_data \<and>
            (\<forall>i<length x_data.
               (x_data ! i < Fin (hd x_sorted) \<longrightarrow> y_interp ! i = Fin (hd y_sorted)) \<and>
               (Fin (last x_sorted) < x_data ! i \<longrightarrow> y_interp ! i = Fin (last y_sorted))))"
proof -
  have sorted: "sorted x_sorted"
    unfolding x_sorted_def by (rule sorted_take_indices)
  have pts: "set (zip x_sorted y_sorted) = set (zip xs ys)"
    unfolding x_sorted_def y_sorted_def using assms(3) by (rule set_zip_take_indices)
  have ends: "\<forall>x \<in> set xs. hd x_sorted \<le> x \<and> x \<le> last x_sorted"
    using sorted_hd_last [OF sorted] by (simp add: x_sorted_def set_take_indices)
  have l1: "length x_sorted = length y_sorted" by (simp add: x_sorted_def y_sorted_def)
  have l2: "2 \<le> length x_sorted" using assms(4) by (simp add: x_sorted_def)
  define ip where "ip = \<lparr>ip_x = x_sorted, ip_y = y_sorted,
                   fill_value_below = hd y_sorted, fill_value_above = last y_sorted\<rparr>"
  have again: "take_indices x_sorted (argsort x_sorted) = x_sorted"
       "take_indices y_sorted (argsort x_sorted) = y_sorted"
    using take_indices_upt [of x_sorted] take_indices_upt [of y_sorted]
    by (simp_all add: argsort_sorted [OF sorted] l1)
  have blk: "interp_block x_sorted y_sorted x_data = Inr (map (interp1d_eval ip) x_data)"
    using interp_block_ok [OF l1 l2, of x_data] by (simp add: again ip_def interp1d_call_def)
  have ne: "ip_x ip \<noteq> []" using l2 by (auto simp: ip_def)
  have "\<forall>i<length x_data.
          (x_data ! i < Fin (hd x_sorted) \<longrightarrow>
             map (interp1d_eval ip) x_data ! i = Fin (hd y_sorted)) \<and>
          (Fin (last x_sorted) < x_data ! i \<longrightarrow>
             map (interp1d_eval ip) x_data ! i = Fin (last y_sorted))"
    using interp1d_eval_below [of _ ip] interp1d_eval_above [of ip] sorted ne
    by (simp add: ip_def)
  with blk have "\<exists>y_interp. interp_block x_sorted y_sorted x_data = Inr y_interp \<and>
            length y_interp = length x_data \<and>
            (\<forall>i<length x_data.
               (x_data ! i < Fin (hd x_sorted) \<longrightarrow> y_interp ! i = Fin (hd y_sorted)) \<and>
               (Fin (last x_sorted) < x_data ! i \<longrightarrow> y_interp ! i = Fin (last y_sorted)))"
    by simp
  with sorted pts ends show ?thesis by blast
qed

theorem flat_extrapolation_witness:
  "length [3, 1, 2 :: real] = length [10, 20, 40 :: real] \<and> 2 \<le> length [3, 1, 2 :: real] \<and>
   take_indices [3, 1, 2] (argsort [3, 1, 2]) = [1, 2, 3] \<and>
   take_indices [10, 20, 40] (argsort [3, 1, 2]) = [20, 40, 10 :: real] \<and>
   (\<exists>y_interp.
      interp_block (take_indices [3, 1, 2] (argsort [3, 1, 2]))
        (take_indices [10, 20, 40] (argsort [3, 1, 2])) [Fin 0, Fin 5] = Inr y_interp \<and>
      y_interp ! 0 = Fin 20 \<and> y_interp ! 1 = Fin 10)"
proof -
  have h1: "length [3, 1, 2 :: real] = length [10, 20, 40 :: real]" by simp
  have h2: "2 \<le> length [3, 1, 2 :: real]" by simp
  have sx: "take_indices [3, 1, 2] (argsort [3, 1, 2]) = [1, 2, 3]"
    by (simp add: argsort_def take_indices_def)
  have sy: "take_indices [10, 20, 40] (argsort [3, 1, 2]) = [20, 40, 10 :: real]"
    by (simp add: argsort_def take_indices_def)
  from flat_extrapolation [OF h1 h2, of "[Fin 0, Fin 5]"]
  obtain y_interp where y:
    "interp_block (take_indices [3, 1, 2] (argsort [3, 1, 2]))
        (take_indices [10, 20, 40] (argsort [3, 1, 2])) [Fin 0, Fin 5] = Inr y_interp"
    "\<forall>i<length [Fin 0, Fin 5].
       ([Fin 0, Fin 5] ! i < Fin (hd (take_indices [3, 1, 2] (argsort [3, 1, 2]))) \<longrightarrow>
          y_interp ! i = Fin (hd (take_indices [10, 20, 40] (argsort [3, 1, 2])))) \<and>
       (Fin (last (take_indices [3, 1, 2] (argsort [3, 1, 2]))) < [Fin 0, Fin 5] ! i \<longrightarrow>
          y_interp ! i = Fin (last (take_indices [10, 20, 40] (argsort [3, 1, 2]))))"
    by blast
  have "y_interp ! 0 = Fin 20"
    using y(2) [rule_format, of 0] by (simp add: sx sy)
  moreover have "y_interp ! 1 = Fin 10"
    using y(2) [rule_format, of 1] by (simp add: sx sy)
  ultimately show ?thesis using h1 h2 sx sy y(1) by blast
qed

section \<open>The regularization term\<close>

text \<open>
  Claim C7. For a finite \<open>M\<close> the term added to the misfit, \<open>200 * reg\<close>, is
  \<open>200 * ((M - 0.015) / 0.02)\<^sup>2\<close>; it is never negative, it is zero at \<open>M = 0.015\<close>
  and at no other \<open>M\<close>, so \<open>M = 0.015\<close> is its unique minimizer. It depends on nothing
  but \<open>M\<close>.
\<close>

theorem reg_pull:
  "Fin 200 * reg_term (Fin m) = Fin (200 * ((m - 0.015) / 0.02)\<^sup>2) \<and>
   Fin 0 \<le> Fin 200 * reg_term (Fin m) \<and>
   Fin 200 * reg_term (Fin 0.015) \<le> Fin 200 * reg_term (Fin m) \<and>
   Fin 200 * reg_term (Fin 0.015) = Fin 0 \<and>
   ((Fin 200 * reg_term (Fin m) = Fin 0) = (m = 0.015))"
  by (auto simp add: reg_term_def minus_npfloat_def power2_eq_square)

section \<open>The objective always returns\<close>



section \<open>The two residual aggregations\<close>

text \<open>
  Claim C10. For every residual array \<open>dy\<close> the Euclidean branch
  \<open>sum (hypot (zeros_like dy) dy)\<close> and the absolute-value branch \<open>sum \<bar>dy\<bar>\<close>
  compute the same number, so \<open>objective\<close> returns the same result for either value of
  the flag \<open>USE_EUCLIDEAN\<close>.
\<close>

theorem euclidean_same:
  "aggregate True dy = aggregate False dy \<and>
   objective_with True params t_vals x_data y_data =
     objective_with False params t_vals x_data y_data"
proof -
  have a: "\<And>dy. aggregate True dy = aggregate False dy"
    by (simp add: aggregate_def hypot_zeros_like)
  show ?thesis
    by (simp add: objective_with_def a
          cong: prod.case_cong option.case_cong sum.case_cong if_cong)
qed

section \<open>The incumbent of the global search\<close>

text \<open>
  Claim C4. Restart \<open>run\<close> of the global search is run with the seed
  \<open>RANDOM_SEED + run * 3\<close>, that is 45, 48 and 51 for the three restarts. When the loop
  ends, the incumbent is the result of one of the restarts, and its objective value is
  less than or equal to that of every restart. The values compared are objective values,
  which are numbers or plus infinity (\<open>objective_finite_data\<close>); a value that is not a
  number compares false with everything and is left aside here.
\<close>

theorem global_search_lowest:
  assumes "\<forall>run \<in> {1..N_STARTS}. res_fun (de (RANDOM_SEED + run * 3)) \<noteq> NaN"
  shows "map restart_seed [1..N_STARTS] = [45, 48, 51] \<and>
         (\<exists>k \<in> {1..N_STARTS}. global_search de = Some (de (RANDOM_SEED + k * 3)) \<and>
            (\<forall>run \<in> {1..N_STARTS}.
               res_fun (de (RANDOM_SEED + k * 3)) \<le> res_fun (de (RANDOM_SEED + run * 3))))"
proof -
  have ne: "[1..N_STARTS] \<noteq> []" by (simp add: runs_list)
  have a: "\<forall>run \<in> set [1..N_STARTS]. res_fun (de (restart_seed run)) \<noteq> NaN"
    using assms by (simp add: restart_seed_def)
  have "\<exists>k \<in> {1..N_STARTS}. global_search de = Some (de (RANDOM_SEED + k * 3)) \<and>
            (\<forall>run \<in> {1..N_STARTS}.
               res_fun (de (RANDOM_SEED + k * 3)) \<le> res_fun (de (RANDOM_SEED + run * 3)))"
    using restart_loop_None [OF ne a]
    unfolding global_search_def restart_seed_def set_upto .
  moreover have "map restart_seed [1..N_STARTS] = [45, 48, 51]"
    by (simp add: runs_list restart_seed_def RANDOM_SEED_def)
  ultimately show ?thesis by blast
qed

theorem global_search_lowest_witness:
  "(\<forall>run. res_fun ((\<lambda>seed. \<lparr>res_x = (Fin 1, Fin 0, Fin 2),
                        res_fun = (if seed = 48 then Fin 5 else Fin 7)\<rparr>)
                   (RANDOM_SEED + run * 3)) \<noteq> NaN) \<and>
   global_search (\<lambda>seed. \<lparr>res_x = (Fin 1, Fin 0, Fin 2),
                      res_fun = (if seed = 48 then Fin 5 else Fin 7)\<rparr>)
     = Some \<lparr>res_x = (Fin 1, Fin 0, Fin 2), res_fun = Fin 5\<rparr>"
proof -
  define de :: "int \<Rightarrow> OptimizeResult" where
    "de = (\<lambda>seed. \<lparr>res_x = (Fin 1, Fin 0, Fin 2),
                  res_fun = (if seed = 48 then Fin 5 else Fin 7)\<rparr>)"
  have nn: "\<forall>run. res_fun (de (RANDOM_SEED + run * 3)) \<noteq> NaN"
    by (simp add: de_def)
  then have h: "\<forall>run \<in> {1..N_STARTS}. res_fun (de (RANDOM_SEED + run * 3)) \<noteq> NaN"
    by blast
  from global_search_lowest [OF h] obtain k where k:
    "global_search de = Some (de (RANDOM_SEED + k * 3))"
    "\<forall>run \<in> {1..N_STARTS}.
       res_fun (de (RANDOM_SEED + k * 3)) \<le> res_fun (de (RANDOM_SEED + run * 3))"
    by blast
  have "res_fun (de (RANDOM_SEED + k * 3)) \<le> res_fun (de (RANDOM_SEED + 2 * 3))"
    using k(2) [rule_format, of 2] by (simp add: N_STARTS_def)
  then have "de (RANDOM_SEED + k * 3) = \<lparr>res_x = (Fin 1, Fin 0, Fin 2), res_fun = Fin 5\<rparr>"
    by (simp add: de_def RANDOM_SEED_def split: if_splits)
  then show ?thesis
    using k(1) nn unfolding de_def by simp
qed

section \<open>Acceptance of the local refinement\<close>

text \<open>
  Claim C3. The final result of the pipeline is the refined result when its objective
  value is strictly lower than the incumbent's, and the unchanged incumbent of the
  global search otherwise; in both cases its objective value is less than or equal to the
  incumbent's. As for the restarts, the incumbent's value is an objective value, a number
  or plus infinity.
\<close>

theorem local_refinement_monotone:
  assumes "global_search de = Some best" "res_fun best \<noteq> NaN"
  shows "pipeline de minimize =
           Some (if res_fun (minimize (res_x best)) < res_fun best
                 then minimize (res_x best) else best) \<and>
         (\<exists>final. pipeline de minimize = Some final \<and> res_fun final \<le> res_fun best)"
  using assms
  by (auto simp: pipeline_def local_refinement_def Let_def np_less_imp_le np_le_refl)

theorem local_refinement_monotone_witness:
  "global_search (\<lambda>seed. \<lparr>res_x = (Fin 1, Fin 0, Fin 2),
                      res_fun = (if seed = 48 then Fin 5 else Fin 7)\<rparr>)
     = Some \<lparr>res_x = (Fin 1, Fin 0, Fin 2), res_fun = Fin 5\<rparr> \<and>
   res_fun \<lparr>res_x = (Fin 1, Fin 0, Fin 2), res_fun = Fin 5\<rparr> \<noteq> NaN \<and>
   pipeline (\<lambda>seed. \<lparr>res_x = (Fin 1, Fin 0, Fin 2),
                 res_fun = (if seed = 48 then Fin 5 else Fin 7)\<rparr>)
     (\<lambda>x0. \<lparr>res_x = x0, res_fun = Fin 6\<rparr>)
     = Some \<lparr>res_x = (Fin 1, Fin 0, Fin 2), res_fun = Fin 5\<rparr> \<and>
   pipeline (\<lambda>seed. \<lparr>res_x = (Fin 1, Fin 0, Fin 2),
                 res_fun = (if seed = 48 then Fin 5 else Fin 7)\<rparr>)
     (\<lambda>x0. \<lparr>res_x = (Fin 2, Fin 0, Fin 2), res_fun = Fin 4\<rparr>)
     = Some \<lparr>res_x = (Fin 2, Fin 0, Fin 2), res_fun = Fin 4\<rparr>"
proof -
  have g: "global_search (\<lambda>seed. \<lparr>res_x = (Fin 1, Fin 0, Fin 2),
                      res_fun = (if seed = 48 then Fin 5 else Fin 7)\<rparr>)
     = Some \<lparr>res_x = (Fin 1, Fin 0, Fin 2), res_fun = Fin 5\<rparr>"
    by (simp add: global_search_def runs_list restart_seed_def RANDOM_SEED_def)
  have n: "res_fun \<lparr>res_x = (Fin 1, Fin 0, Fin 2), res_fun = Fin 5\<rparr> \<noteq> NaN" by simp
  show ?thesis
    using local_refinement_monotone [OF g n, of "\<lambda>x0. \<lparr>res_x = x0, res_fun = Fin 6\<rparr>"]
      local_refinement_monotone [OF g n,
        of "\<lambda>x0. \<lparr>res_x = (Fin 2, Fin 0, Fin 2), res_fun = Fin 4\<rparr>"] g
    by simp
qed

end
